theory Spec2Isabelle
  imports Complex_Main "HOL-Library.Sublist"
begin

section \<open>JavaScript values\<close>

text \<open>
  The task store (\<^verbatim>\<open>src/unnamed/part_001\<close>) keeps \<^verbatim>\<open>TaskAndHistory\<close> values, either in a
  \<^verbatim>\<open>Map\<close> (\<^verbatim>\<open>InMemoryTaskStore\<close>) or as two JSON files per task (\<^verbatim>\<open>FileStore\<close>).
  Objects and arrays are reference values in JavaScript: the in-memory store copies them
  with the spread operator, which copies one level only. The embedding therefore keeps an
  explicit heap. A JSON document is a finite tree; the member names of an object are
  distinct, as they are in every object that \<^verbatim>\<open>JSON.parse\<close> returns.
\<close>

datatype json =
    JNull
  | JBool bool
  | JNum rat
  | JStr string
  | JArr "json list"
  | JObj "(string \<times> json) list"

type_synonym addr = nat

text \<open>
  A value is a primitive or a reference to a heap cell. Numbers are the finite doubles,
  which are rationals. \<^verbatim>\<open>undefined\<close> is not a value of the model: reading a missing
  property gives \<open>None\<close>.
\<close>

datatype val = Null | Bool bool | Num rat | Str string | Ref addr

text \<open>
  A heap cell is an object (its own properties in insertion order, read with \<open>map_of\<close>)
  or an array.
\<close>

datatype obj = Object "(string \<times> val) list" | Array "val list"

type_synonym heap = "obj list"

text \<open>Object and array literals, and the spread copies, allocate a fresh cell.\<close>

definition alloc :: "obj \<Rightarrow> heap \<Rightarrow> val \<times> heap" where
  "alloc ob h = (Ref (length h), h @ [ob])"

text \<open>\<^verbatim>\<open>v.k\<close> for a property name that no array has (\<open>None\<close> is \<^verbatim>\<open>undefined\<close>).\<close>

definition get_prop :: "heap \<Rightarrow> val \<Rightarrow> string \<Rightarrow> val option" where
  "get_prop h v k =
     (case v of
        Ref a \<Rightarrow>
          (if a < length h then
             (case h ! a of Object fs \<Rightarrow> map_of fs k | Array xs \<Rightarrow> None)
           else None)
      | _ \<Rightarrow> None)"

text \<open>\<^verbatim>\<open>obj.k = v\<close> and \<^verbatim>\<open>arr.push(v)\<close>: the mutations a caller can apply to a value it holds.\<close>

fun set_field :: "string \<Rightarrow> val \<Rightarrow> (string \<times> val) list \<Rightarrow> (string \<times> val) list" where
  "set_field k v [] = [(k, v)]"
| "set_field k v (p # ps) = (if fst p = k then (k, v) # ps else p # set_field k v ps)"

definition assign_prop :: "addr \<Rightarrow> string \<Rightarrow> val \<Rightarrow> heap \<Rightarrow> heap" where
  "assign_prop a k v h =
     (if a < length h then
        (case h ! a of Object fs \<Rightarrow> h[a := Object (set_field k v fs)] | Array xs \<Rightarrow> h)
      else h)"

definition array_push :: "addr \<Rightarrow> val \<Rightarrow> heap \<Rightarrow> heap" where
  "array_push a v h =
     (if a < length h then
        (case h ! a of Array xs \<Rightarrow> h[a := Array (xs @ [v])] | Object fs \<Rightarrow> h)
      else h)"

text \<open>JavaScript truthiness, of a value and of a property read.\<close>

fun truthy :: "val \<Rightarrow> bool" where
  "truthy Null = False"
| "truthy (Bool b) = b"
| "truthy (Num n) = (n \<noteq> 0)"
| "truthy (Str s) = (s \<noteq> [])"
| "truthy (Ref a) = True"

fun truthy_prop :: "val option \<Rightarrow> bool" where
  "truthy_prop None = False"
| "truthy_prop (Some v) = truthy v"

text \<open>\<^verbatim>\<open>typeof v === 'object'\<close> holds of \<^verbatim>\<open>null\<close>, of objects and of arrays.\<close>

fun typeof_object :: "val \<Rightarrow> bool" where
  "typeof_object Null = True"
| "typeof_object (Ref a) = True"
| "typeof_object v = False"

definition isArray :: "heap \<Rightarrow> val option \<Rightarrow> bool" where
  "isArray h v =
     (case v of
        Some (Ref a) \<Rightarrow>
          (if a < length h then (case h ! a of Array xs \<Rightarrow> True | Object fs \<Rightarrow> False)
           else False)
      | _ \<Rightarrow> False)"

subsection \<open>JSON.stringify and JSON.parse\<close>

text \<open>
  \<^verbatim>\<open>JSON.stringify\<close> walks the object graph below a value. It keeps the stack of the
  objects it is inside of and throws a TypeError when it meets one of them again (a
  cycle). \<open>JSON_tree av h v\<close> is the document it writes, where \<open>av\<close> lists the addresses
  that are not on that stack; \<open>None\<close> is the TypeError. Sharing without a cycle is
  written out once per occurrence. (An address outside the heap, which no JavaScript value
  holds, has no document either.)
\<close>

fun JSON_tree :: "addr list \<Rightarrow> heap \<Rightarrow> val \<Rightarrow> json option" where
  "JSON_tree av h Null = Some JNull"
| "JSON_tree av h (Bool b) = Some (JBool b)"
| "JSON_tree av h (Num n) = Some (JNum n)"
| "JSON_tree av h (Str s) = Some (JStr s)"
| "JSON_tree av h (Ref a) =
     (if a \<in> set av \<and> a < length h then
        (case h ! a of
           Object fs \<Rightarrow>
             map_option JObj
               (those (map (\<lambda>kv. map_option (Pair (fst kv))
                                   (JSON_tree (removeAll a av) h (snd kv))) fs))
         | Array xs \<Rightarrow>
             map_option JArr (those (map (JSON_tree (removeAll a av) h) xs)))
      else None)"

definition JSON_stringify :: "heap \<Rightarrow> val \<Rightarrow> json option" where
  "JSON_stringify h v = JSON_tree [0..<length h] h v"

text \<open>
  \<^verbatim>\<open>JSON.parse\<close> builds a fresh object graph for a document: every array and every
  object of the document becomes a new cell.
\<close>

fun JSON_parse :: "json \<Rightarrow> heap \<Rightarrow> val \<times> heap"
  and parse_elems :: "json list \<Rightarrow> heap \<Rightarrow> val list \<times> heap"
  and parse_members :: "(string \<times> json) list \<Rightarrow> heap \<Rightarrow> (string \<times> val) list \<times> heap"
where
  "JSON_parse JNull h = (Null, h)"
| "JSON_parse (JBool b) h = (Bool b, h)"
| "JSON_parse (JNum n) h = (Num n, h)"
| "JSON_parse (JStr s) h = (Str s, h)"
| "JSON_parse (JArr js) h = (case parse_elems js h of (vs, h') \<Rightarrow> alloc (Array vs) h')"
| "JSON_parse (JObj ms) h = (case parse_members ms h of (fs, h') \<Rightarrow> alloc (Object fs) h')"
| "parse_elems [] h = ([], h)"
| "parse_elems (j # js) h =
     (case JSON_parse j h of (v, h1) \<Rightarrow>
        (case parse_elems js h1 of (vs, h2) \<Rightarrow> (v # vs, h2)))"
| "parse_members [] h = ([], h)"
| "parse_members (m # ms) h =
     (case JSON_parse (snd m) h of (v, h1) \<Rightarrow>
        (case parse_members ms h1 of (fs, h2) \<Rightarrow> ((fst m, v) # fs, h2)))"

section \<open>Errors, paths and the file system\<close>

text \<open>
  \<^verbatim>\<open>A2AError.invalidParams\<close> (the spec's InvalidIdentifier) and
  \<^verbatim>\<open>A2AError.internalError\<close> (the spec's StorageError) carry their message; the text of
  the underlying cause, which the platform chooses, is left out of it. \<open>TypeError\<close> is
  JavaScript's own.
\<close>

datatype error = InvalidParams string | InternalError string | TypeError

fun message :: "error \<Rightarrow> string" where
  "message (InvalidParams m) = m"
| "message (InternalError m) = m"
| "message TypeError = []"

text \<open>
  \<^verbatim>\<open>path.basename\<close> of Node.js on POSIX: trailing slashes are dropped, and the result is
  what follows the last remaining slash.
\<close>

definition basename :: "string \<Rightarrow> string" where
  "basename p =
     rev (takeWhile (\<lambda>c. c \<noteq> CHR ''/'') (dropWhile (\<lambda>c. c = CHR ''/'') (rev p)))"

text \<open>
  \<^verbatim>\<open>path.join(dir, name)\<close> for a directory path that is already normalised and a name
  that is a single segment (every name the store joins ends in \<^verbatim>\<open>.json\<close> and holds no
  slash).
\<close>

definition path_join :: "string \<Rightarrow> string \<Rightarrow> string" where
  "path_join dir name = dir @ ''/'' @ name"

text \<open>\<^verbatim>\<open>s.includes(t)\<close>: \<open>t\<close> occurs in \<open>s\<close> as a substring.\<close>

fun str_includes :: "string \<Rightarrow> string \<Rightarrow> bool" where
  "str_includes [] t = (t = [])"
| "str_includes (c # cs) t = (prefix t (c # cs) \<or> str_includes cs t)"

text \<open>
  What \<^verbatim>\<open>JSON.parse\<close> makes of a file's text: a document, or a SyntaxError. The text
  that \<^verbatim>\<open>JSON.stringify(d, null, 2)\<close> writes is the document of \<open>d\<close>; that
  \<^verbatim>\<open>JSON.parse\<close> reads back from it the document that was written is a property of the
  two built-ins, which the representation takes as given.
\<close>

datatype content = Document json | Garbage

text \<open>
  A path of the file system holds nothing, a regular file, or an entry that neither
  \<^verbatim>\<open>readFile\<close> nor \<^verbatim>\<open>writeFile\<close> can use (a directory, a file without permissions):
  both fail on it with a code other than ENOENT. A directory path is free, a directory, or
  taken by something that is no directory or may not be entered: \<^verbatim>\<open>mkdir\<close> fails on it,
  and so does every lookup below it. The file system also records the calls made to it.
\<close>

datatype node = File content | Blocked

datatype dir_state = NoDir | IsDir | NotDir

datatype fs_call = Mkdir string | ReadFile string | WriteFile string

record filesystem =
  dirs :: "string \<Rightarrow> dir_state"
  files :: "string \<rightharpoonup> node"
  calls :: "fs_call list"

datatype read_result = ENOENT | ReadError | Data content

text \<open>\<^verbatim>\<open>fs.mkdir(d, {recursive: true})\<close>; \<open>True\<close> when it resolves.\<close>

definition fs_mkdir :: "string \<Rightarrow> filesystem \<Rightarrow> bool \<times> filesystem" where
  "fs_mkdir d fs =
     (case dirs fs d of
        NotDir \<Rightarrow> (False, fs\<lparr>calls := calls fs @ [Mkdir d]\<rparr>)
      | _ \<Rightarrow> (True, fs\<lparr>dirs := (dirs fs)(d := IsDir), calls := calls fs @ [Mkdir d]\<rparr>))"

text \<open>
  The lookup of a path at which there is no file. It ends in ENOENT only when the path can
  be walked: the operating system refuses a final segment of more than \<open>NAME_MAX\<close> bytes
  and a path of \<open>PATH_MAX\<close> bytes or more with ENAMETOOLONG, and a path whose directory
  part is taken by a non-directory (or may not be entered) with ENOTDIR (or EACCES). The
  limits are those of Linux. \<open>dirname\<close> is the part of a path before its last slash.
\<close>

definition NAME_MAX :: nat where
  "NAME_MAX = 255"

definition PATH_MAX :: nat where
  "PATH_MAX = 4096"

definition dirname :: "string \<Rightarrow> string" where
  "dirname p = rev (drop 1 (dropWhile (\<lambda>c. c \<noteq> CHR ''/'') (rev p)))"

definition lookup_ok :: "filesystem \<Rightarrow> string \<Rightarrow> bool" where
  "lookup_ok fs p =
     (length (basename p) \<le> NAME_MAX \<and> length p < PATH_MAX \<and> dirs fs (dirname p) \<noteq> NotDir)"

text \<open>
  \<^verbatim>\<open>fs.readFile(p, 'utf8')\<close>. A file that is there is read. Where there is none, the
  read fails: with ENOENT when the lookup gets as far as the missing name, with another
  code when the lookup itself fails.
\<close>

definition fs_readFile :: "string \<Rightarrow> filesystem \<Rightarrow> read_result \<times> filesystem" where
  "fs_readFile p fs =
     (case files fs p of
        None \<Rightarrow> if lookup_ok fs p then ENOENT else ReadError
      | Some Blocked \<Rightarrow> ReadError
      | Some (File c) \<Rightarrow> Data c,
      fs\<lparr>calls := calls fs @ [ReadFile p]\<rparr>)"

text \<open>\<^verbatim>\<open>fs.writeFile(p, text, 'utf8')\<close>, a whole-file overwrite; \<open>True\<close> when it resolves.\<close>

definition fs_writeFile :: "string \<Rightarrow> json \<Rightarrow> filesystem \<Rightarrow> bool \<times> filesystem" where
  "fs_writeFile p j fs =
     (case files fs p of
        Some Blocked \<Rightarrow> (False, fs\<lparr>calls := calls fs @ [WriteFile p]\<rparr>)
      | _ \<Rightarrow> (True, fs\<lparr>files := (files fs)(p \<mapsto> File (Document j)),
                      calls := calls fs @ [WriteFile p]\<rparr>))"

section \<open>The task stores\<close>

text \<open>
  \<^verbatim>\<open>interface TaskAndHistory { task: schema.Task; history: schema.Message[] }\<close>. The
  wrapper object itself is never shared (\<^verbatim>\<open>load\<close> builds a new one, \<^verbatim>\<open>save\<close> only reads
  it), so it is a record of the two values it holds.
\<close>

record TaskAndHistory =
  task :: val
  history :: val

text \<open>
  \<^verbatim>\<open>data.task.id\<close>, as a string. The TypeScript signatures make \<^verbatim>\<open>task\<close> an object with a
  string \<^verbatim>\<open>id\<close> and \<^verbatim>\<open>history\<close> an array; where a value of another shape reaches a store,
  the model answers \<open>TypeError\<close> (JavaScript throws it for \<^verbatim>\<open>null\<close>, and \<^verbatim>\<open>path.basename\<close>
  throws it for an id that is no string).
\<close>

definition task_id :: "heap \<Rightarrow> val \<Rightarrow> string option" where
  "task_id h t = (case get_prop h t ''id'' of Some (Str s) \<Rightarrow> Some s | _ \<Rightarrow> None)"

text \<open>\<^verbatim>\<open>{...v}\<close> and \<^verbatim>\<open>[...v]\<close>: a new cell with the same members, which stay shared.\<close>

definition spread_object :: "heap \<Rightarrow> val \<Rightarrow> (val \<times> heap) option" where
  "spread_object h v =
     (case v of
        Ref a \<Rightarrow>
          (if a < length h then
             (case h ! a of Object fs \<Rightarrow> Some (alloc (Object fs) h) | Array xs \<Rightarrow> None)
           else None)
      | _ \<Rightarrow> None)"

definition spread_array :: "heap \<Rightarrow> val \<Rightarrow> (val \<times> heap) option" where
  "spread_array h v =
     (case v of
        Ref a \<Rightarrow>
          (if a < length h then
             (case h ! a of Array xs \<Rightarrow> Some (alloc (Array xs) h) | Object fs \<Rightarrow> None)
           else None)
      | _ \<Rightarrow> None)"

subsection \<open>InMemoryTaskStore\<close>

record InMemoryTaskStore =
  store :: "string \<rightharpoonup> TaskAndHistory"

definition InMemory_new :: InMemoryTaskStore where
  "InMemory_new = \<lparr>store = Map.empty\<rparr>"

definition InMemory_load ::
  "InMemoryTaskStore \<Rightarrow> heap \<Rightarrow> string \<Rightarrow> (error + TaskAndHistory option) \<times> heap" where
  "InMemory_load S h taskId =
     (case store S taskId of
        None \<Rightarrow> (Inr None, h)
      | Some entry \<Rightarrow>
          (case spread_object h (task entry) of
             None \<Rightarrow> (Inl TypeError, h)
           | Some (t, h1) \<Rightarrow>
               (case spread_array h1 (history entry) of
                  None \<Rightarrow> (Inl TypeError, h1)
                | Some (hs, h2) \<Rightarrow> (Inr (Some \<lparr>task = t, history = hs\<rparr>), h2))))"

definition InMemory_save ::
  "InMemoryTaskStore \<Rightarrow> heap \<Rightarrow> TaskAndHistory
     \<Rightarrow> (error + unit) \<times> InMemoryTaskStore \<times> heap" where
  "InMemory_save S h data =
     (case task_id h (task data) of
        None \<Rightarrow> (Inl TypeError, S, h)
      | Some tid \<Rightarrow>
          (case spread_object h (task data) of
             None \<Rightarrow> (Inl TypeError, S, h)
           | Some (t, h1) \<Rightarrow>
               (case spread_array h1 (history data) of
                  None \<Rightarrow> (Inl TypeError, S, h1)
                | Some (hs, h2) \<Rightarrow>
                    (Inr (), S\<lparr>store := (store S)(tid \<mapsto> \<lparr>task = t, history = hs\<rparr>)\<rparr>, h2))))"

subsection \<open>FileStore\<close>

record FileStore =
  baseDir :: string

text \<open>\<^verbatim>\<open>this.baseDir = options?.dir || '.a2a-tasks'\<close>: an empty string is falsy.\<close>

definition FileStore_new :: "string option \<Rightarrow> FileStore" where
  "FileStore_new dir =
     \<lparr>baseDir = (case dir of None \<Rightarrow> ''.a2a-tasks''
                 | Some d \<Rightarrow> if d = [] then ''.a2a-tasks'' else d)\<rparr>"

definition ensureDirectoryExists :: "FileStore \<Rightarrow> filesystem \<Rightarrow> (error + unit) \<times> filesystem" where
  "ensureDirectoryExists S fs =
     (case fs_mkdir (baseDir S) fs of
        (True, fs') \<Rightarrow> (Inr (), fs')
      | (False, fs') \<Rightarrow>
          (Inl (InternalError (''Failed to create directory '' @ baseDir S @ '': '')), fs'))"

definition getTaskFilePath :: "FileStore \<Rightarrow> string \<Rightarrow> string" where
  "getTaskFilePath S taskId =
     (let safeTaskId = basename taskId in path_join (baseDir S) (safeTaskId @ ''.json''))"

definition getHistoryFilePath :: "FileStore \<Rightarrow> string \<Rightarrow> error + string" where
  "getHistoryFilePath S taskId =
     (let safeTaskId = basename taskId in
      if safeTaskId \<noteq> taskId \<or> str_includes taskId ''..''
      then Inl (InvalidParams (''Invalid Task ID format: '' @ taskId))
      else Inr (path_join (baseDir S) (safeTaskId @ ''.history.json'')))"

text \<open>
  The callback of \<^verbatim>\<open>messageHistory.every\<close>, with its short circuits:
  \<^verbatim>\<open>typeof msg === 'object' && msg.role && msg.parts\<close>. \<^verbatim>\<open>typeof null\<close> is
  \<^verbatim>\<open>'object'\<close>, so a \<^verbatim>\<open>null\<close> entry reaches \<^verbatim>\<open>msg.role\<close>, which throws.
\<close>

fun every_message :: "heap \<Rightarrow> val list \<Rightarrow> error + bool" where
  "every_message h [] = Inr True"
| "every_message h (msg # msgs) =
     (if \<not> typeof_object msg then Inr False
      else if msg = Null then Inl TypeError
      else if truthy_prop (get_prop h msg ''role'') \<and> truthy_prop (get_prop h msg ''parts'')
      then every_message h msgs
      else Inr False)"

definition array_elems :: "heap \<Rightarrow> val option \<Rightarrow> val list" where
  "array_elems h v =
     (case v of
        Some (Ref a) \<Rightarrow>
          (if a < length h then (case h ! a of Array xs \<Rightarrow> xs | Object fs \<Rightarrow> []) else [])
      | _ \<Rightarrow> [])"

definition isHistoryFileContent :: "heap \<Rightarrow> val \<Rightarrow> error + bool" where
  "isHistoryFileContent h content =
     (if typeof_object content \<and> content \<noteq> Null
         \<and> isArray h (get_prop h content ''messageHistory'')
      then every_message h (array_elems h (get_prop h content ''messageHistory''))
      else Inr False)"

text \<open>
  \<^verbatim>\<open>readJsonFile\<close>: a read that fails with ENOENT is \<^verbatim>\<open>null\<close>; any other failure of
  the read, and a SyntaxError of \<^verbatim>\<open>JSON.parse\<close> (it has no \<^verbatim>\<open>code\<close>), is rethrown as an
  internal error.
\<close>

definition readJsonFile ::
  "string \<Rightarrow> filesystem \<Rightarrow> heap \<Rightarrow> (error + val) \<times> filesystem \<times> heap" where
  "readJsonFile filePath fs h =
     (case fs_readFile filePath fs of
        (Data (Document j), fs') \<Rightarrow> (case JSON_parse j h of (v, h') \<Rightarrow> (Inr v, fs', h'))
      | (Data Garbage, fs') \<Rightarrow>
          (Inl (InternalError (''Failed to read file '' @ filePath @ '': '')), fs', h)
      | (ENOENT, fs') \<Rightarrow> (Inr Null, fs', h)
      | (ReadError, fs') \<Rightarrow>
          (Inl (InternalError (''Failed to read file '' @ filePath @ '': '')), fs', h))"

text \<open>
  \<^verbatim>\<open>writeJsonFile\<close>: everything thrown inside its \<^verbatim>\<open>try\<close> (by the directory creation,
  by \<^verbatim>\<open>JSON.stringify\<close> on a cyclic value, by the write) becomes an internal error.
\<close>

definition writeJsonFile ::
  "FileStore \<Rightarrow> string \<Rightarrow> heap \<Rightarrow> val \<Rightarrow> filesystem \<Rightarrow> (error + unit) \<times> filesystem" where
  "writeJsonFile S filePath h data fs =
     (case ensureDirectoryExists S fs of
        (Inl e, fs1) \<Rightarrow>
          (Inl (InternalError (''Failed to write file '' @ filePath @ '': '' @ message e)), fs1)
      | (Inr u, fs1) \<Rightarrow>
          (case JSON_stringify h data of
             None \<Rightarrow> (Inl (InternalError (''Failed to write file '' @ filePath @ '': '')), fs1)
           | Some j \<Rightarrow>
               (case fs_writeFile filePath j fs1 of
                  (True, fs2) \<Rightarrow> (Inr (), fs2)
                | (False, fs2) \<Rightarrow>
                    (Inl (InternalError (''Failed to write file '' @ filePath @ '': '')), fs2))))"

text \<open>
  \<^verbatim>\<open>load\<close>. Both paths are computed before the first read, and the history path is the
  one that validates the id. The empty array literal (\<open>noHistory\<close>) is allocated before
  the history file is read; every way the history read can go wrong inside the \<^verbatim>\<open>try\<close>
  leaves it in place. When the type guard holds, \<^verbatim>\<open>messageHistory\<close> is present (lemma
  \<open>isHistoryFileContent_tree\<close>), so the \<open>None\<close> branch of that read is never taken. Console
  output is not modelled.
\<close>

definition FileStore_load ::
  "FileStore \<Rightarrow> filesystem \<Rightarrow> heap \<Rightarrow> string
     \<Rightarrow> (error + TaskAndHistory option) \<times> filesystem \<times> heap" where
  "FileStore_load S fs h taskId =
     (let taskFilePath = getTaskFilePath S taskId in
      case getHistoryFilePath S taskId of
        Inl e \<Rightarrow> (Inl e, fs, h)
      | Inr historyFilePath \<Rightarrow>
          (case readJsonFile taskFilePath fs h of
             (Inl e, fs1, h1) \<Rightarrow> (Inl e, fs1, h1)
           | (Inr t, fs1, h1) \<Rightarrow>
               if \<not> truthy t then (Inr None, fs1, h1)
               else
                 (case alloc (Array []) h1 of
                    (noHistory, h2) \<Rightarrow>
                      (case readJsonFile historyFilePath fs1 h2 of
                         (Inl e, fs2, h3) \<Rightarrow>
                           (Inr (Some \<lparr>task = t, history = noHistory\<rparr>), fs2, h3)
                       | (Inr historyContent, fs2, h3) \<Rightarrow>
                           (case isHistoryFileContent h3 historyContent of
                              Inr True \<Rightarrow>
                                (Inr (Some \<lparr>task = t,
                                   history =
                                     (case get_prop h3 historyContent ''messageHistory'' of
                                        Some m \<Rightarrow> m
                                      | None \<Rightarrow> noHistory)\<rparr>), fs2, h3)
                            | _ \<Rightarrow> (Inr (Some \<lparr>task = t, history = noHistory\<rparr>), fs2, h3))))))"

text \<open>
  \<^verbatim>\<open>save\<close>. The two \<^verbatim>\<open>writeJsonFile\<close> calls of the \<^verbatim>\<open>Promise.all\<close> are both carried
  out whether or not the other fails. They run here one after the other, the metadata
  write first: the two write different paths, so the order shows in the record of calls
  only, not in the files they leave. The error reported is that of the metadata write
  when it fails. The wrapper \<^verbatim>\<open>{messageHistory: history}\<close> is a new object.
\<close>

definition FileStore_save ::
  "FileStore \<Rightarrow> filesystem \<Rightarrow> heap \<Rightarrow> TaskAndHistory
     \<Rightarrow> (error + unit) \<times> filesystem \<times> heap" where
  "FileStore_save S fs h data =
     (case task_id h (task data) of
        None \<Rightarrow> (Inl TypeError, fs, h)
      | Some tid \<Rightarrow>
          (let taskFilePath = getTaskFilePath S tid in
           case getHistoryFilePath S tid of
             Inl e \<Rightarrow> (Inl e, fs, h)
           | Inr historyFilePath \<Rightarrow>
               (case ensureDirectoryExists S fs of
                  (Inl e, fs1) \<Rightarrow> (Inl e, fs1, h)
                | (Inr u, fs1) \<Rightarrow>
                    (case alloc (Object [(''messageHistory'', history data)]) h of
                       (w, h1) \<Rightarrow>
                         (case writeJsonFile S taskFilePath h1 (task data) fs1 of
                            (r1, fs2) \<Rightarrow>
                              (case writeJsonFile S historyFilePath h1 w fs2 of
                                 (r2, fs3) \<Rightarrow>
                                   ((case r1 of Inl e \<Rightarrow> Inl e | Inr u1 \<Rightarrow> r2), fs3, h1)))))))"

text \<open>An id that \<^verbatim>\<open>getHistoryFilePath\<close> lets through.\<close>

definition valid_id :: "string \<Rightarrow> bool" where
  "valid_id taskId = (basename taskId = taskId \<and> \<not> str_includes taskId ''..'')"

section \<open>What the claims speak of\<close>

text \<open>
  Two values are deep-equal when \<^verbatim>\<open>JSON.stringify\<close> gives the same document for both;
  a claim about the data a store returns is stated on \<open>JSON_stringify\<close> of the result.

  Modelled from the spec: \<^verbatim>\<open>schema.Message\<close> and \<^verbatim>\<open>schema.Task\<close> (the module
  \<^verbatim>\<open>../schema.js\<close> is not among the sources). A Message has a role, \<^verbatim>\<open>user\<close> or
  \<^verbatim>\<open>agent\<close>, and an ordered list of parts; a Task has a string id. A history file has the
  shape \<^verbatim>\<open>{messageHistory: Message[]}\<close>.
\<close>

fun is_Message :: "json \<Rightarrow> bool" where
  "is_Message (JObj ms) =
     ((map_of ms ''role'' = Some (JStr ''user'') \<or> map_of ms ''role'' = Some (JStr ''agent''))
      \<and> (case map_of ms ''parts'' of Some (JArr ps) \<Rightarrow> True | _ \<Rightarrow> False))"
| "is_Message j = False"

fun is_Task :: "json \<Rightarrow> bool" where
  "is_Task (JObj ms) = (case map_of ms ''id'' of Some (JStr s) \<Rightarrow> True | _ \<Rightarrow> False)"
| "is_Task j = False"

fun is_HistoryFile :: "json \<Rightarrow> bool" where
  "is_HistoryFile (JObj ms) =
     (case map_of ms ''messageHistory'' of Some (JArr xs) \<Rightarrow> list_all is_Message xs | _ \<Rightarrow> False)"
| "is_HistoryFile j = False"

text \<open>
  The check that \<^verbatim>\<open>isHistoryFileContent\<close> applies, read on the document of the file:
  the content is an object whose \<^verbatim>\<open>messageHistory\<close> is an array, and every entry is an
  object with a truthy \<^verbatim>\<open>role\<close> and a truthy \<^verbatim>\<open>parts\<close>. \<open>accepted_history\<close> gives the
  entries of a document that passes.
\<close>

fun truthy_json :: "json \<Rightarrow> bool" where
  "truthy_json JNull = False"
| "truthy_json (JBool b) = b"
| "truthy_json (JNum n) = (n \<noteq> 0)"
| "truthy_json (JStr s) = (s \<noteq> [])"
| "truthy_json (JArr js) = True"
| "truthy_json (JObj ms) = True"

fun truthy_member :: "json option \<Rightarrow> bool" where
  "truthy_member None = False"
| "truthy_member (Some j) = truthy_json j"

fun shallow_message :: "json \<Rightarrow> bool" where
  "shallow_message (JObj ms) =
     (truthy_member (map_of ms ''role'') \<and> truthy_member (map_of ms ''parts''))"
| "shallow_message j = False"

fun accepted_history :: "json \<Rightarrow> json list option" where
  "accepted_history (JObj ms) =
     (case map_of ms ''messageHistory'' of
        Some (JArr xs) \<Rightarrow> if list_all shallow_message xs then Some xs else None
      | _ \<Rightarrow> None)"
| "accepted_history j = None"

text \<open>The history that \<^verbatim>\<open>load\<close> hands out for each state of the history file.\<close>

fun history_read :: "node option \<Rightarrow> json list" where
  "history_read (Some (File (Document hj))) =
     (case accepted_history hj of Some xs \<Rightarrow> xs | None \<Rightarrow> [])"
| "history_read n = []"

text \<open>
  The two files of a task id, and a file system on which \<^verbatim>\<open>save\<close> can write them: the
  root directory can be created and neither path is blocked.
\<close>

definition taskFile :: "FileStore \<Rightarrow> string \<Rightarrow> string" where
  "taskFile S taskId = path_join (baseDir S) (taskId @ ''.json'')"

definition historyFile :: "FileStore \<Rightarrow> string \<Rightarrow> string" where
  "historyFile S taskId = path_join (baseDir S) (taskId @ ''.history.json'')"


section \<open>Example data\<close>

text \<open>
  A store with the default directory, the file system that holds the given files and has
  made no call yet (with no files, no directory exists either), and a caller's heap holding
  the record \<^verbatim>\<open>{task: {id: 't', status: {state: 'working'}}, history: [{role: 'user',
  parts: ['hi']}]}\<close>: the parts array at address 0, the message at 1, the status at 2,
  the task at 3 and the history array at 4.
\<close>

definition ex_store :: FileStore where
  "ex_store = FileStore_new None"

definition no_files :: "(string \<times> node) list" where
  "no_files = []"

definition fs_with :: "(string \<times> node) list \<Rightarrow> filesystem" where
  "fs_with entries =
     \<lparr>dirs = (\<lambda>d. if entries = [] then NoDir else IsDir), files = map_of entries,
      calls = []\<rparr>"

definition ex_heap :: heap where
  "ex_heap =
     [Array [Str ''hi''],
      Object [(''role'', Str ''user''), (''parts'', Ref 0)],
      Object [(''state'', Str ''working'')],
      Object [(''id'', Str ''t''), (''status'', Ref 2)],
      Array [Ref 1]]"

definition ex_data :: TaskAndHistory where
  "ex_data = \<lparr>task = Ref 3, history = Ref 4\<rparr>"

definition ex_task_doc :: json where
  "ex_task_doc = JObj [(''id'', JStr ''t''), (''status'', JObj [(''state'', JStr ''working'')])]"

definition ex_message_doc :: json where
  "ex_message_doc = JObj [(''role'', JStr ''user''), (''parts'', JArr [JStr ''hi''])]"

text \<open>A heap whose only record has the given id, and files for a task \<^verbatim>\<open>t\<close>.\<close>

definition heap_with_id :: "string \<Rightarrow> heap" where
  "heap_with_id tid = [Object [(''id'', Str tid)], Array []]"

definition id_data :: TaskAndHistory where
  "id_data = \<lparr>task = Ref 0, history = Ref 1\<rparr>"


definition metadata_only_files :: "(string \<times> node) list" where
  "metadata_only_files = [(''.a2a-tasks/t.json'', File (Document ex_task_doc))]"

definition odd_history_doc :: json where
  "odd_history_doc =
     JObj [(''messageHistory'', JArr [JObj [(''role'', JNum 1), (''parts'', JNum 2)]])]"

definition odd_history_files :: "(string \<times> node) list" where
  "odd_history_files =
     [(''.a2a-tasks/t.json'', File (Document ex_task_doc)),
      (''.a2a-tasks/t.history.json'', File (Document odd_history_doc))]"

definition blocked_history_files :: "(string \<times> node) list" where
  "blocked_history_files =
     [(''.a2a-tasks/t.json'', File (Document ex_task_doc)),
      (''.a2a-tasks/t.history.json'', Blocked)]"








text \<open>
  A caller of \<^verbatim>\<open>InMemoryTaskStore\<close> saves the example record, loads it, and then changes
  what it was given: \<^verbatim>\<open>r.task.status.state = 'failed'\<close> (the status object is at address
  2) and \<^verbatim>\<open>r.history[0].parts.push('changed')\<close> (the parts array is at address 0). It
  then loads the id again. In \<open>input_mutated_load\<close> the caller instead changes the record
  it passed to \<^verbatim>\<open>save\<close>, after the save, and loads.
\<close>

definition saved_store :: "InMemoryTaskStore \<times> heap" where
  "saved_store = snd (InMemory_save InMemory_new ex_heap ex_data)"

definition first_load :: "(error + TaskAndHistory option) \<times> heap" where
  "first_load = InMemory_load (fst saved_store) (snd saved_store) ''t''"

definition mutated_heap :: heap where
  "mutated_heap =
     array_push 0 (Str ''changed'') (assign_prop 2 ''state'' (Str ''failed'') (snd first_load))"

definition second_load :: "(error + TaskAndHistory option) \<times> heap" where
  "second_load = InMemory_load (fst saved_store) mutated_heap ''t''"

definition input_mutated_load :: "(error + TaskAndHistory option) \<times> heap" where
  "input_mutated_load =
     InMemory_load (fst saved_store)
       (assign_prop 2 ''state'' (Str ''failed'') (snd saved_store)) ''t''"

text \<open>
  A caller of \<^verbatim>\<open>FileStore\<close> saves a record with the id \<^verbatim>\<open>b\<close> and one message, loads
  it, saves a record with the id \<^verbatim>\<open>b.history\<close>, and loads \<^verbatim>\<open>b\<close> again.
\<close>

definition collide_heap :: heap where
  "collide_heap =
     [Array [Str ''hi''],
      Object [(''role'', Str ''user''), (''parts'', Ref 0)],
      Object [(''id'', Str ''b'')],
      Array [Ref 1],
      Object [(''id'', Str ''b.history'')],
      Array []]"

definition collide_b :: TaskAndHistory where
  "collide_b = \<lparr>task = Ref 2, history = Ref 3\<rparr>"

definition collide_x :: TaskAndHistory where
  "collide_x = \<lparr>task = Ref 4, history = Ref 5\<rparr>"

definition saved_b :: "(error + unit) \<times> filesystem \<times> heap" where
  "saved_b = FileStore_save ex_store (fs_with no_files) collide_heap collide_b"

definition load_b_before :: "(error + TaskAndHistory option) \<times> filesystem \<times> heap" where
  "load_b_before = FileStore_load ex_store (fst (snd saved_b)) (snd (snd saved_b)) ''b''"

definition saved_x :: "(error + unit) \<times> filesystem \<times> heap" where
  "saved_x =
     FileStore_save ex_store (fst (snd load_b_before)) (snd (snd load_b_before)) collide_x"

definition load_b_after :: "(error + TaskAndHistory option) \<times> filesystem \<times> heap" where
  "load_b_after = FileStore_load ex_store (fst (snd saved_x)) (snd (snd saved_x)) ''b''"

section \<open>Lemmas\<close>

subsection \<open>Documents and the heap\<close>

lemma those_map_mono:
  "those (map f xs) = Some ys \<Longrightarrow> (\<And>x y. x \<in> set xs \<Longrightarrow> f x = Some y \<Longrightarrow> g x = Some y)
     \<Longrightarrow> those (map g xs) = Some ys"
proof (induction xs arbitrary: ys)
  case Nil
  then show ?case by simp
next
  case (Cons x xs)
  then show ?case by (auto split: option.splits)
qed

text \<open>
  A document read off a value stays the same when more addresses are allowed and when
  the heap grows at its end.
\<close>

lemma JSON_tree_mono:
  "JSON_tree av h v = Some j \<Longrightarrow> set av \<subseteq> set av' \<Longrightarrow> JSON_tree av' (h @ ext) v = Some j"
proof (induction av h v arbitrary: j av' rule: JSON_tree.induct)
  case (5 av h a)
  from "5.prems"(1) have a: "a \<in> set av" "a < length h"
    by (auto split: if_splits)
  then have a': "a \<in> set av'" "a < length (h @ ext)" "(h @ ext) ! a = h ! a"
    using "5.prems"(2) by (auto simp: nth_append)
  have sub: "set (removeAll a av) \<subseteq> set (removeAll a av')"
    using "5.prems"(2) by auto
  show ?case
  proof (cases "h ! a")
    case (Object fs)
    with "5.prems"(1) a obtain ms where
      ms: "those (map (\<lambda>kv. map_option (Pair (fst kv)) (JSON_tree (removeAll a av) h (snd kv))) fs) = Some ms"
      and j: "j = JObj ms"
      by auto
    have "those (map (\<lambda>kv. map_option (Pair (fst kv)) (JSON_tree (removeAll a av') (h @ ext) (snd kv))) fs) = Some ms"
    proof (rule those_map_mono [OF ms])
      fix kv y
      assume kv: "kv \<in> set fs"
        and y: "map_option (Pair (fst kv)) (JSON_tree (removeAll a av) h (snd kv)) = Some y"
      then obtain j' where j': "JSON_tree (removeAll a av) h (snd kv) = Some j'" and "y = (fst kv, j')"
        by auto
      moreover from "5.IH"(1) [OF _ Object kv j' sub] a
      have "JSON_tree (removeAll a av') (h @ ext) (snd kv) = Some j'" by simp
      ultimately show "map_option (Pair (fst kv)) (JSON_tree (removeAll a av') (h @ ext) (snd kv)) = Some y"
        by simp
    qed
    with a' Object j show ?thesis by simp
  next
    case (Array xs)
    with "5.prems"(1) a obtain js where
      js: "those (map (JSON_tree (removeAll a av) h) xs) = Some js"
      and j: "j = JArr js"
      by auto
    have "those (map (JSON_tree (removeAll a av') (h @ ext)) xs) = Some js"
    proof (rule those_map_mono [OF js])
      fix x y
      assume "x \<in> set xs" and "JSON_tree (removeAll a av) h x = Some y"
      with "5.IH"(2) [OF _ Array _ _ sub] a
      show "JSON_tree (removeAll a av') (h @ ext) x = Some y" by simp
    qed
    with a' Array j show ?thesis by simp
  qed
qed simp_all


text \<open>
  \<^verbatim>\<open>JSON.parse\<close> only appends cells, and the value it returns has the parsed document,
  on every later heap and whatever other addresses are allowed.
\<close>

lemma JSON_parse_tree:
  "JSON_parse j h = (v, h') \<Longrightarrow>
     (\<exists>ext. h' = h @ ext) \<and>
     (\<forall>av hx. {length h..<length h'} \<subseteq> set av \<longrightarrow> JSON_tree av (h' @ hx) v = Some j)"
  "parse_elems js h = (vs, h') \<Longrightarrow>
     (\<exists>ext. h' = h @ ext) \<and>
     (\<forall>av hx. {length h..<length h'} \<subseteq> set av \<longrightarrow>
        those (map (JSON_tree av (h' @ hx)) vs) = Some js)"
  "parse_members ms h = (fs, h') \<Longrightarrow>
     (\<exists>ext. h' = h @ ext) \<and>
     (\<forall>av hx. {length h..<length h'} \<subseteq> set av \<longrightarrow>
        those (map (\<lambda>kv. map_option (Pair (fst kv)) (JSON_tree av (h' @ hx) (snd kv))) fs)
          = Some ms)"
proof (induction j h and js h and ms h arbitrary: v h' and vs h' and fs h'
    rule: JSON_parse_parse_elems_parse_members.induct)
  case (5 js h)
  obtain vs h1 where p: "parse_elems js h = (vs, h1)" by (cases "parse_elems js h")
  with "5.prems" have v: "v = Ref (length h1)" and h': "h' = h1 @ [Array vs]"
    by (simp_all add: alloc_def)
  from "5.IH" [OF p] obtain ext where ext: "h1 = h @ ext"
    and tree: "\<And>av hx. {length h..<length h1} \<subseteq> set av \<Longrightarrow>
                 those (map (JSON_tree av (h1 @ hx)) vs) = Some js"
    by blast
  have "JSON_tree av (h' @ hx) v = Some (JArr js)" if av: "{length h..<length h'} \<subseteq> set av" for av hx
  proof -
    from av ext h' have "length h1 \<in> set av" by auto
    moreover have "{length h..<length h1} \<subseteq> set (removeAll (length h1) av)"
      using av h' by auto
    from tree [OF this, of "Array vs # hx"]
    have "those (map (JSON_tree (removeAll (length h1) av) (h' @ hx)) vs) = Some js"
      by (simp add: h')
    ultimately show ?thesis by (simp add: v h' nth_append)
  qed
  with ext h' show ?case by simp
next
  case (6 ms h)
  obtain fs h1 where p: "parse_members ms h = (fs, h1)" by (cases "parse_members ms h")
  with "6.prems" have v: "v = Ref (length h1)" and h': "h' = h1 @ [Object fs]"
    by (simp_all add: alloc_def)
  from "6.IH" [OF p] obtain ext where ext: "h1 = h @ ext"
    and tree: "\<And>av hx. {length h..<length h1} \<subseteq> set av \<Longrightarrow>
                 those (map (\<lambda>kv. map_option (Pair (fst kv)) (JSON_tree av (h1 @ hx) (snd kv))) fs)
                   = Some ms"
    by blast
  have "JSON_tree av (h' @ hx) v = Some (JObj ms)" if av: "{length h..<length h'} \<subseteq> set av" for av hx
  proof -
    from av ext h' have "length h1 \<in> set av" by auto
    moreover have "{length h..<length h1} \<subseteq> set (removeAll (length h1) av)"
      using av h' by auto
    from tree [OF this, of "Object fs # hx"]
    have "those (map (\<lambda>kv. map_option (Pair (fst kv))
             (JSON_tree (removeAll (length h1) av) (h' @ hx) (snd kv))) fs) = Some ms"
      by (simp add: h')
    ultimately show ?thesis by (simp add: v h' nth_append)
  qed
  with ext h' show ?case by simp
next
  case (8 j js h)
  obtain v1 h1 where p1: "JSON_parse j h = (v1, h1)" by (cases "JSON_parse j h")
  obtain vs1 h2 where p2: "parse_elems js h1 = (vs1, h2)" by (cases "parse_elems js h1")
  from "8.prems" p1 p2 have vs: "vs = v1 # vs1" and h': "h' = h2" by simp_all
  from "8.IH"(1) [OF p1] obtain e1 where e1: "h1 = h @ e1"
    and t1: "\<And>av hx. {length h..<length h1} \<subseteq> set av \<Longrightarrow> JSON_tree av (h1 @ hx) v1 = Some j"
    by blast
  from "8.IH"(2) [OF p1 [symmetric] p2] obtain e2 where e2: "h2 = h1 @ e2"
    and t2: "\<And>av hx. {length h1..<length h2} \<subseteq> set av \<Longrightarrow>
               those (map (JSON_tree av (h2 @ hx)) vs1) = Some js"
    by blast
  have "those (map (JSON_tree av (h' @ hx)) vs) = Some (j # js)"
    if av: "{length h..<length h'} \<subseteq> set av" for av hx
  proof -
    have "{length h..<length h1} \<subseteq> set av" using av h' e2 by auto
    from t1 [OF this, of "e2 @ hx"] have "JSON_tree av (h' @ hx) v1 = Some j"
      by (simp add: h' e2)
    moreover have "{length h1..<length h2} \<subseteq> set av" using av h' e1 by auto
    from t2 [OF this, of hx] have "those (map (JSON_tree av (h' @ hx)) vs1) = Some js"
      by (simp add: h')
    ultimately show ?thesis by (simp add: vs)
  qed
  with e1 e2 h' show ?case by simp
next
  case (10 m ms h)
  obtain v1 h1 where p1: "JSON_parse (snd m) h = (v1, h1)" by (cases "JSON_parse (snd m) h")
  obtain fs1 h2 where p2: "parse_members ms h1 = (fs1, h2)" by (cases "parse_members ms h1")
  from "10.prems" p1 p2 have fs: "fs = (fst m, v1) # fs1" and h': "h' = h2" by simp_all
  from "10.IH"(1) [OF p1] obtain e1 where e1: "h1 = h @ e1"
    and t1: "\<And>av hx. {length h..<length h1} \<subseteq> set av \<Longrightarrow>
               JSON_tree av (h1 @ hx) v1 = Some (snd m)"
    by blast
  from "10.IH"(2) [OF p1 [symmetric] p2] obtain e2 where e2: "h2 = h1 @ e2"
    and t2: "\<And>av hx. {length h1..<length h2} \<subseteq> set av \<Longrightarrow>
               those (map (\<lambda>kv. map_option (Pair (fst kv)) (JSON_tree av (h2 @ hx) (snd kv))) fs1)
                 = Some ms"
    by blast
  have "those (map (\<lambda>kv. map_option (Pair (fst kv)) (JSON_tree av (h' @ hx) (snd kv))) fs)
          = Some (m # ms)"
    if av: "{length h..<length h'} \<subseteq> set av" for av hx
  proof -
    have "{length h..<length h1} \<subseteq> set av" using av h' e2 by auto
    from t1 [OF this, of "e2 @ hx"] have "JSON_tree av (h' @ hx) v1 = Some (snd m)"
      by (simp add: h' e2)
    moreover have "{length h1..<length h2} \<subseteq> set av" using av h' e1 by auto
    from t2 [OF this, of hx]
    have "those (map (\<lambda>kv. map_option (Pair (fst kv)) (JSON_tree av (h' @ hx) (snd kv))) fs1)
            = Some ms"
      by (simp add: h')
    ultimately show ?thesis by (simp add: fs)
  qed
  with e1 e2 h' show ?case by simp
qed auto

lemma stringify_parse:
  assumes "JSON_parse j h = (v, h')"
  shows "JSON_stringify (h' @ hx) v = Some j"
proof -
  have "{length h..<length h'} \<subseteq> set [0..<length (h' @ hx)]" by auto
  with JSON_parse_tree(1) [OF assms] show ?thesis
    unfolding JSON_stringify_def by blast
qed

lemma JSON_parse_extends: "JSON_parse j h = (v, h') \<Longrightarrow> \<exists>ext. h' = h @ ext"
  using JSON_parse_tree(1) by blast

text \<open>What the document of a value says about the value.\<close>

lemma JSON_tree_truthy: "JSON_tree av h v = Some j \<Longrightarrow> truthy v = truthy_json j"
  by (cases v) (auto split: if_splits obj.splits)

lemma JSON_tree_JObj:
  assumes "JSON_tree av h c = Some (JObj ms)"
  obtains a fs where "c = Ref a" "a \<in> set av" "a < length h" "h ! a = Object fs"
    "those (map (\<lambda>kv. map_option (Pair (fst kv)) (JSON_tree (removeAll a av) h (snd kv))) fs)
       = Some ms"
  using assms by (cases c) (auto split: if_splits obj.splits)

lemma JSON_tree_JArr:
  assumes "JSON_tree av h c = Some (JArr js)"
  obtains a xs where "c = Ref a" "a \<in> set av" "a < length h" "h ! a = Array xs"
    "those (map (JSON_tree (removeAll a av) h) xs) = Some js"
  using assms by (cases c) (auto split: if_splits obj.splits)

lemma those_members_lookup:
  "those (map (\<lambda>kv. map_option (Pair (fst kv)) (f (snd kv))) fs) = Some ms \<Longrightarrow>
     (case map_of fs k of None \<Rightarrow> map_of ms k = None
      | Some x \<Rightarrow> \<exists>j. f x = Some j \<and> map_of ms k = Some j)"
proof (induction fs arbitrary: ms)
  case Nil
  then show ?case by simp
next
  case (Cons p fs)
  then show ?case by (cases p) (auto split: option.splits)
qed

lemma those_map_all2:
  "those (map f xs) = Some js \<Longrightarrow> list_all2 (\<lambda>x j. f x = Some j) xs js"
proof (induction xs arbitrary: js)
  case Nil
  then show ?case by simp
next
  case (Cons x xs)
  then show ?case by (auto split: option.splits)
qed

text \<open>A property read on a value, seen on its document.\<close>

lemma get_prop_tree:
  assumes "JSON_tree av h c = Some (JObj ms)"
  shows "case get_prop h c k of None \<Rightarrow> map_of ms k = None
         | Some x \<Rightarrow> \<exists>j. JSON_tree av h x = Some j \<and> map_of ms k = Some j"
proof -
  from assms obtain a fs where c: "c = Ref a" "a \<in> set av" "a < length h" "h ! a = Object fs"
    and ms: "those (map (\<lambda>kv. map_option (Pair (fst kv)) (JSON_tree (removeAll a av) h (snd kv))) fs)
       = Some ms"
    by (rule JSON_tree_JObj)
  have gp: "get_prop h c k = map_of fs k" using c by (simp add: get_prop_def)
  show ?thesis
  proof (cases "map_of fs k")
    case None
    with those_members_lookup [OF ms, of k] gp show ?thesis by simp
  next
    case (Some x)
    with those_members_lookup [OF ms, of k] obtain j
      where j: "JSON_tree (removeAll a av) h x = Some j" "map_of ms k = Some j" by auto
    from JSON_tree_mono [OF j(1), of av "[]"] have "JSON_tree av h x = Some j" by auto
    with j Some gp show ?thesis by simp
  qed
qed

lemma truthy_prop_tree:
  assumes "JSON_tree av h c = Some (JObj ms)"
  shows "truthy_prop (get_prop h c k) = truthy_member (map_of ms k)"
  using get_prop_tree [OF assms, of k]
  by (auto split: option.splits simp: JSON_tree_truthy)

lemma every_message_tree:
  "list_all2 (\<lambda>x j. JSON_tree av h x = Some j) xs js \<Longrightarrow>
     (every_message h xs = Inr True) = list_all shallow_message js"
proof (induction xs js rule: list_all2_induct)
  case Nil
  then show ?case by simp
next
  case (Cons x xs j js)
  show ?case
  proof (cases j)
    case (JObj ms)
    with Cons.hyps(1) have "x \<noteq> Null" "typeof_object x"
      by (auto elim!: JSON_tree_JObj)
    moreover from Cons.hyps(1) JObj
    have "truthy_prop (get_prop h x k) = truthy_member (map_of ms k)" for k
      by (simp add: truthy_prop_tree)
    ultimately show ?thesis using Cons.IH JObj by auto
  next
    case (JArr ys)
    with Cons.hyps(1) obtain a zs where "x = Ref a" "a < length h" "h ! a = Array zs"
      by (auto elim!: JSON_tree_JArr)
    then show ?thesis using JArr by (simp add: get_prop_def)
  qed (use Cons.hyps(1) in \<open>cases x; auto split: if_splits obj.splits\<close>)+
qed

lemma isHistoryFileContent_tree:
  assumes "JSON_tree av h c = Some j"
  shows "(isHistoryFileContent h c = Inr True) = (accepted_history j \<noteq> None)"
    and "accepted_history j = Some js \<Longrightarrow>
           \<exists>m. get_prop h c ''messageHistory'' = Some m \<and> JSON_tree av h m = Some (JArr js)"
proof -
  have "(isHistoryFileContent h c = Inr True) = (accepted_history j \<noteq> None)
        \<and> (accepted_history j = Some js \<longrightarrow>
           (\<exists>m. get_prop h c ''messageHistory'' = Some m \<and> JSON_tree av h m = Some (JArr js)))"
  proof (cases j)
    case (JObj ms)
    with assms have c: "typeof_object c" "c \<noteq> Null" by (auto elim!: JSON_tree_JObj)
    note gp = get_prop_tree [OF assms [unfolded JObj], of "''messageHistory''"]
    show ?thesis
    proof (cases "get_prop h c ''messageHistory''")
      case None
      with gp JObj show ?thesis by (simp add: isHistoryFileContent_def isArray_def)
    next
      case (Some m)
      with gp obtain mj where mj: "JSON_tree av h m = Some mj" "map_of ms ''messageHistory'' = Some mj"
        by auto
      show ?thesis
      proof (cases mj)
        case (JArr xs)
        with mj obtain b zs where b: "m = Ref b" "b \<in> set av" "b < length h" "h ! b = Array zs"
          and zs: "those (map (JSON_tree (removeAll b av) h) zs) = Some xs"
          by (auto elim!: JSON_tree_JArr)
        from those_map_all2 [OF zs]
        have "(every_message h zs = Inr True) = list_all shallow_message xs"
          by (rule every_message_tree)
        with c Some b JObj mj JArr show ?thesis
          by (auto simp: isHistoryFileContent_def isArray_def array_elems_def)
      next
        case (JObj ms')
        with mj obtain b zs where "m = Ref b" "b < length h" "h ! b = Object zs"
          by (auto elim!: JSON_tree_JObj)
        with c Some mj JObj \<open>j = JObj ms\<close> show ?thesis
          by (simp add: isHistoryFileContent_def isArray_def)
      qed (use mj c Some \<open>j = JObj ms\<close> in
            \<open>cases m; auto simp: isHistoryFileContent_def isArray_def split: if_splits obj.splits\<close>)+
    qed
  next
    case (JArr xs)
    with assms obtain a zs where "c = Ref a" "a < length h" "h ! a = Array zs"
      by (auto elim!: JSON_tree_JArr)
    then show ?thesis using JArr
      by (simp add: isHistoryFileContent_def isArray_def get_prop_def)
  qed (use assms in \<open>cases c; auto simp: isHistoryFileContent_def isArray_def get_prop_def
                        split: if_splits obj.splits\<close>)+
  then show "(isHistoryFileContent h c = Inr True) = (accepted_history j \<noteq> None)"
    and "accepted_history j = Some js \<Longrightarrow>
           \<exists>m. get_prop h c ''messageHistory'' = Some m \<and> JSON_tree av h m = Some (JArr js)"
    by blast+
qed

subsection \<open>Identifiers and paths\<close>



lemma str_includes_iff: "str_includes s t = (\<exists>ps ss. s = ps @ t @ ss)"
proof (induction s)
  case Nil
  then show ?case by auto
next
  case (Cons c cs)
  show ?case
  proof
    assume "str_includes (c # cs) t"
    then consider "prefix t (c # cs)" | "str_includes cs t" by auto
    then show "\<exists>ps ss. c # cs = ps @ t @ ss"
    proof cases
      case 1
      then obtain ss where "c # cs = t @ ss" by (auto simp: prefix_def)
      then have "c # cs = [] @ t @ ss" by simp
      then show ?thesis by blast
    next
      case 2
      with Cons.IH obtain ps ss where "cs = ps @ t @ ss" by auto
      then have "c # cs = (c # ps) @ t @ ss" by simp
      then show ?thesis by blast
    qed
  next
    assume "\<exists>ps ss. c # cs = ps @ t @ ss"
    then obtain ps ss where eq: "c # cs = ps @ t @ ss" by auto
    show "str_includes (c # cs) t"
    proof (cases ps)
      case Nil
      with eq have "prefix t (c # cs)" by (simp add: prefix_def)
      then show ?thesis by simp
    next
      case (Cons p ps')
      with eq have "cs = ps' @ t @ ss" by simp
      with Cons.IH show ?thesis by auto
    qed
  qed
qed

lemma valid_id_paths:
  assumes "valid_id tid"
  shows "getTaskFilePath S tid = taskFile S tid"
    and "getHistoryFilePath S tid = Inr (historyFile S tid)"
  using assms
  by (simp_all add: valid_id_def getTaskFilePath_def getHistoryFilePath_def taskFile_def
      historyFile_def)

lemma invalid_id_path:
  assumes "\<not> valid_id tid"
  shows "getHistoryFilePath S tid = Inl (InvalidParams (''Invalid Task ID format: '' @ tid))"
  using assms by (auto simp: valid_id_def getHistoryFilePath_def)


lemma taskFile_inj: "(taskFile S t = taskFile S u) = (t = u)"
  by (simp add: taskFile_def path_join_def)

lemma historyFile_inj: "(historyFile S t = historyFile S u) = (t = u)"
  by (simp add: historyFile_def path_join_def)

lemma taskFile_eq_historyFile: "(taskFile S t = historyFile S u) = (t = u @ ''.history'')"
  by (auto simp: taskFile_def historyFile_def path_join_def)


subsection \<open>FileStore: what save writes and what load reads\<close>

lemma stringify_fresh_empty_array:
  "JSON_stringify (h @ Array [] # hx) (Ref (length h)) = Some (JArr [])"
  by (simp add: JSON_stringify_def nth_append)



lemma readJsonFile_Document:
  assumes "files fs p = Some (File (Document j))" and "JSON_parse j h = (v, h')"
  shows "readJsonFile p fs h = (Inr v, fs\<lparr>calls := calls fs @ [ReadFile p]\<rparr>, h')"
  using assms by (simp add: readJsonFile_def fs_readFile_def)

lemma lookup_ok_calls: "lookup_ok (fs\<lparr>calls := c\<rparr>) p = lookup_ok fs p"
  by (simp add: lookup_ok_def)

lemma readJsonFile_absent:
  assumes "files fs p = None" and "lookup_ok fs p"
  shows "readJsonFile p fs h = (Inr Null, fs\<lparr>calls := calls fs @ [ReadFile p]\<rparr>, h)"
  using assms by (simp add: readJsonFile_def fs_readFile_def)

lemma readJsonFile_broken:
  assumes "files fs p = Some Blocked \<or> files fs p = Some (File Garbage)
           \<or> (files fs p = None \<and> \<not> lookup_ok fs p)"
  shows "readJsonFile p fs h =
    (Inl (InternalError (''Failed to read file '' @ p @ '': '')),
     fs\<lparr>calls := calls fs @ [ReadFile p]\<rparr>, h)"
  using assms by (auto simp: readJsonFile_def fs_readFile_def)

lemma FileStore_load_result:
  assumes valid: "valid_id tid"
    and tf: "files fs (taskFile S tid) = Some (File (Document tj))"
    and tr: "truthy_json tj"
  shows "\<exists>r fs' h'. FileStore_load S fs h tid = (Inr (Some r), fs', h') \<and>
           JSON_stringify h' (task r) = Some tj \<and>
           JSON_stringify h' (history r)
             = Some (JArr (history_read (files fs (historyFile S tid)))) \<and>
           files fs' = files fs \<and> dirs fs' = dirs fs"
proof -
  obtain t h1 where p1: "JSON_parse tj h = (t, h1)" by (cases "JSON_parse tj h")
  let ?fs1 = "fs\<lparr>calls := calls fs @ [ReadFile (taskFile S tid)]\<rparr>"
  let ?fs2 = "?fs1\<lparr>calls := calls ?fs1 @ [ReadFile (historyFile S tid)]\<rparr>"
  let ?h2 = "h1 @ [Array []]"
  let ?no = "Ref (length h1)"
  have r1: "readJsonFile (taskFile S tid) fs h = (Inr t, ?fs1, h1)"
    using tf p1 by (rule readJsonFile_Document)
  have st: "JSON_stringify (h1 @ hx) t = Some tj" for hx
    using p1 by (rule stringify_parse)
  from st [of "[]"] tr have tt: "truthy t"
    by (simp add: JSON_stringify_def JSON_tree_truthy)
  have hf: "files ?fs1 (historyFile S tid) = files fs (historyFile S tid)" by simp
  note paths = valid_id_paths [OF valid, of S]
  have start: "FileStore_load S fs h tid =
      (case readJsonFile (historyFile S tid) ?fs1 ?h2 of
         (Inl e, fs2, h3) \<Rightarrow> (Inr (Some \<lparr>task = t, history = ?no\<rparr>), fs2, h3)
       | (Inr historyContent, fs2, h3) \<Rightarrow>
           (case isHistoryFileContent h3 historyContent of
              Inr True \<Rightarrow>
                (Inr (Some \<lparr>task = t,
                   history = (case get_prop h3 historyContent ''messageHistory'' of
                                Some m \<Rightarrow> m | None \<Rightarrow> ?no)\<rparr>), fs2, h3)
            | _ \<Rightarrow> (Inr (Some \<lparr>task = t, history = ?no\<rparr>), fs2, h3)))"
    using tt by (simp add: FileStore_load_def Let_def paths r1 alloc_def)
  consider (absent) "files fs (historyFile S tid) = None" "lookup_ok fs (historyFile S tid)"
    | (broken) "files fs (historyFile S tid) = Some Blocked
                \<or> files fs (historyFile S tid) = Some (File Garbage)
                \<or> (files fs (historyFile S tid) = None \<and> \<not> lookup_ok fs (historyFile S tid))"
    | (doc) hj where "files fs (historyFile S tid) = Some (File (Document hj))"
    by (metis not_Some_eq node.exhaust content.exhaust)
  then show ?thesis
  proof cases
    case absent
    with hf have "readJsonFile (historyFile S tid) ?fs1 ?h2 = (Inr Null, ?fs2, ?h2)"
      by (simp add: readJsonFile_absent lookup_ok_calls)
    with start absent st [of "[Array []]"] stringify_fresh_empty_array [of h1 "[]"]
    show ?thesis by (simp add: isHistoryFileContent_def)
  next
    case broken
    with hf have "readJsonFile (historyFile S tid) ?fs1 ?h2 =
      (Inl (InternalError (''Failed to read file '' @ historyFile S tid @ '': '')), ?fs2, ?h2)"
      by (simp add: readJsonFile_broken lookup_ok_calls)
    with start broken st [of "[Array []]"] stringify_fresh_empty_array [of h1 "[]"]
    show ?thesis by auto
  next
    case doc
    obtain c h3 where p2: "JSON_parse hj ?h2 = (c, h3)" by (cases "JSON_parse hj ?h2")
    from JSON_parse_extends [OF p2] obtain ext where h3: "h3 = ?h2 @ ext" by blast
    from doc hf p2 have r2: "readJsonFile (historyFile S tid) ?fs1 ?h2 = (Inr c, ?fs2, h3)"
      by (simp add: readJsonFile_Document)
    have sc: "JSON_tree [0..<length h3] h3 c = Some hj"
      using stringify_parse [OF p2, of "[]"] by (simp add: JSON_stringify_def)
    have task_ok: "JSON_stringify h3 t = Some tj"
      using st [of "Array [] # ext"] by (simp add: h3)
    have no_ok: "JSON_stringify h3 ?no = Some (JArr [])"
      using stringify_fresh_empty_array [of h1 ext] by (simp add: h3)
    show ?thesis
    proof (cases "accepted_history hj")
      case None
      with isHistoryFileContent_tree(1) [OF sc] have "isHistoryFileContent h3 c \<noteq> Inr True"
        by simp
      with start r2 None doc task_ok no_ok show ?thesis
        by (auto split: sum.splits bool.splits)
    next
      case (Some js)
      with isHistoryFileContent_tree [OF sc] obtain m where
        acc: "isHistoryFileContent h3 c = Inr True"
        and m: "get_prop h3 c ''messageHistory'' = Some m"
          "JSON_tree [0..<length h3] h3 m = Some (JArr js)"
        by auto
      with start r2 Some doc task_ok show ?thesis by (simp add: JSON_stringify_def)
    qed
  qed
qed

lemma FileStore_load_invalid:
  assumes "\<not> valid_id tid"
  shows "FileStore_load S fs h tid
           = (Inl (InvalidParams (''Invalid Task ID format: '' @ tid)), fs, h)"
  by (simp add: FileStore_load_def Let_def invalid_id_path [OF assms])

lemma FileStore_save_invalid:
  assumes "task_id h (task v) = Some tid" and "\<not> valid_id tid"
  shows "FileStore_save S fs h v
           = (Inl (InvalidParams (''Invalid Task ID format: '' @ tid)), fs, h)"
  using assms(1) by (simp add: FileStore_save_def Let_def invalid_id_path [OF assms(2)])







lemma writeJsonFile_error:
  "writeJsonFile S p h d fs = (Inl e, fs') \<Longrightarrow> \<exists>m. e = InternalError m"
  by (auto simp: writeJsonFile_def ensureDirectoryExists_def
      split: prod.splits sum.splits option.splits bool.splits)

lemma FileStore_save_valid_error:
  assumes "task_id h (task v) = Some tid" and "valid_id tid"
  shows "fst (FileStore_save S fs h v) \<noteq> Inl (InvalidParams m)"
  using assms(1)
  by (auto simp: FileStore_save_def Let_def valid_id_paths [OF assms(2)] alloc_def
      ensureDirectoryExists_def split: prod.splits sum.splits bool.splits
      dest: writeJsonFile_error)

lemma FileStore_load_valid_error:
  assumes "valid_id tid"
  shows "fst (FileStore_load S fs h tid) \<noteq> Inl (InvalidParams m)"
proof -
  have "e \<noteq> InvalidParams m" if "readJsonFile p fs h = (Inl e, fs', h')" for p e fs' h'
    using that
    by (auto simp: readJsonFile_def split: prod.splits read_result.splits content.splits)
  then show ?thesis
    by (auto simp: FileStore_load_def Let_def valid_id_paths [OF assms]
        split: prod.splits sum.splits bool.splits)
qed


lemma is_Task_truthy: "is_Task j \<Longrightarrow> truthy_json j"
  by (cases j) auto





subsection \<open>InMemoryTaskStore: a save followed by a load\<close>







subsection \<open>FileStore: a save followed by a load\<close>


subsection \<open>What a save leaves alone\<close>

lemma InMemory_save_other_id:
  assumes "InMemory_save S h v = (r, S', h')" and "task_id h (task v) = Some x" and "y \<noteq> x"
  shows "store S' y = store S y"
  using assms
  by (auto simp: InMemory_save_def split: option.splits)

lemma writeJsonFile_other_files:
  assumes "writeJsonFile S q h d fs = (r, fs')" and "p \<noteq> q"
  shows "files fs' p = files fs p"
  using assms
  by (auto simp: writeJsonFile_def ensureDirectoryExists_def fs_mkdir_def fs_writeFile_def
      split: dir_state.splits option.splits node.splits if_splits)

lemma FileStore_save_other_files:
  assumes "FileStore_save S fs h v = (r, fs', h')" and "task_id h (task v) = Some x"
    and "p \<noteq> taskFile S x" and "p \<noteq> historyFile S x"
  shows "files fs' p = files fs p"
proof (cases "valid_id x")
  case False
  with assms(1,2) show ?thesis by (simp add: FileStore_save_invalid)
next
  case True
  obtain ok fs1 where mk: "fs_mkdir (baseDir S) fs = (ok, fs1)"
    by (cases "fs_mkdir (baseDir S) fs")
  then have f1: "files fs1 p = files fs p"
    by (auto simp: fs_mkdir_def split: dir_state.splits)
  show ?thesis
  proof (cases ok)
    case False
    with assms(1,2) mk f1 show ?thesis
      by (auto simp: FileStore_save_def Let_def valid_id_paths [OF True]
          ensureDirectoryExists_def)
  next
    case ok: True
    let ?h1 = "h @ [Object [(''messageHistory'', history v)]]"
    obtain r1 fs2 where wj1: "writeJsonFile S (taskFile S x) ?h1 (task v) fs1 = (r1, fs2)"
      by (cases "writeJsonFile S (taskFile S x) ?h1 (task v) fs1")
    obtain r2 fs3 where wj2: "writeJsonFile S (historyFile S x) ?h1 (Ref (length h)) fs2 = (r2, fs3)"
      by (cases "writeJsonFile S (historyFile S x) ?h1 (Ref (length h)) fs2")
    from assms(1,2) mk ok wj1 wj2 have "fs' = fs3"
      by (simp add: FileStore_save_def Let_def valid_id_paths [OF True]
          ensureDirectoryExists_def alloc_def)
    with writeJsonFile_other_files [OF wj1 assms(3)] writeJsonFile_other_files [OF wj2 assms(4)] f1
    show ?thesis by simp
  qed
qed

text \<open>
  The files of an id \<open>y\<close> are among those a save of \<open>x\<close> writes only when the ids are the
  same or one is the other followed by \<^verbatim>\<open>.history\<close>.
\<close>

lemma FileStore_save_frame:
  assumes "FileStore_save S fs h v = (r, fs', h')" and "task_id h (task v) = Some x"
    and "y \<noteq> x" and "x \<noteq> y @ ''.history''" and "y \<noteq> x @ ''.history''"
  shows "files fs' (taskFile S y) = files fs (taskFile S y)"
    and "files fs' (historyFile S y) = files fs (historyFile S y)"
  using assms(3-5)
  by (auto intro!: FileStore_save_other_files [OF assms(1,2)]
      simp: taskFile_inj historyFile_inj taskFile_eq_historyFile
      dest: taskFile_eq_historyFile [THEN iffD1, OF sym])

section \<open>The claims\<close>

text \<open>
  The facts that unfold the example data, for the evaluation of the examples below.
\<close>

lemmas ex_defs = ex_store_def FileStore_new_def fs_with_def no_files_def heap_with_id_def
  id_data_def taskFile_def historyFile_def path_join_def valid_id_def basename_def




text \<open>
  Claim C2. When \<^verbatim>\<open>path.basename\<close> changes the id, or the id contains \<^verbatim>\<open>..\<close>, both
  \<^verbatim>\<open>FileStore.load\<close> and \<^verbatim>\<open>FileStore.save\<close> fail with the invalid-parameters error, and
  the file system they return is the one they were given: no directory made, no file
  written, and no call recorded, so nothing was read either.
\<close>

theorem C2_unsafe_id_rejected_before_filesystem:
  assumes "basename tid \<noteq> tid \<or> str_includes tid ''..''"
  shows "FileStore_load S fs h tid
           = (Inl (InvalidParams (''Invalid Task ID format: '' @ tid)), fs, h)
         \<and> (task_id h (task v) = Some tid \<longrightarrow>
              FileStore_save S fs h v
                = (Inl (InvalidParams (''Invalid Task ID format: '' @ tid)), fs, h))"
proof -
  from assms have "\<not> valid_id tid" by (auto simp: valid_id_def)
  then show ?thesis by (simp add: FileStore_load_invalid FileStore_save_invalid)
qed

text \<open>The id \<^verbatim>\<open>../escape\<close> of the spec: its final segment is \<^verbatim>\<open>escape\<close>.\<close>

theorem C2_witness:
  "basename ''../escape'' = ''escape''
   \<and> FileStore_load ex_store (fs_with no_files) (heap_with_id ''../escape'') ''../escape''
       = (Inl (InvalidParams ''Invalid Task ID format: ../escape''), fs_with no_files,
          heap_with_id ''../escape'')
   \<and> FileStore_save ex_store (fs_with no_files) (heap_with_id ''../escape'') id_data
       = (Inl (InvalidParams ''Invalid Task ID format: ../escape''), fs_with no_files,
          heap_with_id ''../escape'')
   \<and> calls (fs_with no_files) = []"
  using C2_unsafe_id_rejected_before_filesystem
    [of "''../escape''" ex_store "fs_with no_files" "heap_with_id ''../escape''" id_data]
  by (simp add: basename_def task_id_def get_prop_def heap_with_id_def id_data_def fs_with_def)

text \<open>
  Claim C3 does not hold of \<^verbatim>\<open>InMemoryTaskStore\<close>: its copies are one level deep. The
  first load returns the saved documents. The status object and the parts array that the
  caller reaches through the returned record are the cells the store's entry points at, so
  after the caller changes them the second load returns the changed documents; and a
  change to the record that was passed to \<^verbatim>\<open>save\<close>, made after the save, shows in the
  next load as well.
\<close>

theorem C3_nested_mutation_reaches_store:
  "fst first_load = Inr (Some \<lparr>task = Ref 7, history = Ref 8\<rparr>)
   \<and> JSON_stringify (snd first_load) (Ref 7) = Some ex_task_doc
   \<and> JSON_stringify (snd first_load) (Ref 8) = Some (JArr [ex_message_doc])
   \<and> get_prop (snd first_load) (Ref 7) ''status'' = Some (Ref 2)
   \<and> array_elems (snd first_load) (Some (Ref 8)) = [Ref 1]
   \<and> get_prop (snd first_load) (Ref 1) ''parts'' = Some (Ref 0)
   \<and> fst second_load = Inr (Some \<lparr>task = Ref 9, history = Ref 10\<rparr>)
   \<and> JSON_stringify (snd second_load) (Ref 9)
        = Some (JObj [(''id'', JStr ''t''), (''status'', JObj [(''state'', JStr ''failed'')])])
   \<and> JSON_stringify (snd second_load) (Ref 10)
        = Some (JArr [JObj [(''role'', JStr ''user''),
                            (''parts'', JArr [JStr ''hi'', JStr ''changed''])]])
   \<and> fst input_mutated_load = Inr (Some \<lparr>task = Ref 7, history = Ref 8\<rparr>)
   \<and> JSON_stringify (snd input_mutated_load) (Ref 7)
        = Some (JObj [(''id'', JStr ''t''), (''status'', JObj [(''state'', JStr ''failed'')])])"
  by code_simp

text \<open>
  Claim C4 does not hold of \<^verbatim>\<open>FileStore\<close>: the metadata file of the id \<^verbatim>\<open>b.history\<close>
  is the history file of the id \<^verbatim>\<open>b\<close>. Before the record \<^verbatim>\<open>b.history\<close> is saved,
  \<^verbatim>\<open>load('b')\<close> returns the one message of \<^verbatim>\<open>b\<close>; after it, the history of \<^verbatim>\<open>b\<close> is
  empty.
\<close>

theorem C4_save_of_other_id_changes_load:
  "valid_id ''b'' \<and> valid_id ''b.history''
   \<and> taskFile ex_store ''b.history'' = historyFile ex_store ''b''
   \<and> fst saved_b = Inr ()
   \<and> fst load_b_before = Inr (Some \<lparr>task = Ref 7, history = Ref 11\<rparr>)
   \<and> JSON_stringify (snd (snd load_b_before)) (Ref 11) = Some (JArr [ex_message_doc])
   \<and> fst saved_x = Inr ()
   \<and> fst load_b_after = Inr (Some \<lparr>task = Ref 14, history = Ref 15\<rparr>)
   \<and> JSON_stringify (snd (snd load_b_after)) (Ref 15) = Some (JArr [])"
  by code_simp




text \<open>
  Claim C6. With a valid id, a metadata file that holds a Task and no history file,
  \<^verbatim>\<open>FileStore.load\<close> succeeds with that task and an empty history.
\<close>

theorem C6_missing_history_is_empty:
  assumes "valid_id tid"
    and "files fs (taskFile S tid) = Some (File (Document tj))" and "is_Task tj"
    and "files fs (historyFile S tid) = None"
  shows "\<exists>r fs' h'. FileStore_load S fs h tid = (Inr (Some r), fs', h')
           \<and> JSON_stringify h' (task r) = Some tj
           \<and> JSON_stringify h' (history r) = Some (JArr [])"
  using FileStore_load_result [OF assms(1,2) is_Task_truthy [OF assms(3)], of h] assms(4)
  by auto

theorem C6_witness:
  "\<exists>r fs' h'. FileStore_load ex_store (fs_with metadata_only_files) [] ''t''
                 = (Inr (Some r), fs', h')
           \<and> JSON_stringify h' (task r) = Some ex_task_doc
           \<and> JSON_stringify h' (history r) = Some (JArr [])"
  using C6_missing_history_is_empty
    [of "''t''" "fs_with metadata_only_files" ex_store ex_task_doc "[]"]
  by (simp add: ex_defs metadata_only_files_def ex_task_doc_def)

text \<open>
  Claim C7 as written fails: a history file whose entries are no Messages (here
  \<^verbatim>\<open>{messageHistory: [{role: 1, parts: 2}]}\<close>) is not of the shape
  \<^verbatim>\<open>{messageHistory: Message[]}\<close>, yet it passes \<^verbatim>\<open>isHistoryFileContent\<close>, which only
  asks for a truthy \<^verbatim>\<open>role\<close> and \<^verbatim>\<open>parts\<close>, and \<^verbatim>\<open>load\<close> returns its entries instead
  of an empty history.
\<close>

theorem C7_counterexample:
  "valid_id ''t''
   \<and> files (fs_with odd_history_files) (taskFile ex_store ''t'')
       = Some (File (Document ex_task_doc))
   \<and> is_Task ex_task_doc
   \<and> files (fs_with odd_history_files) (historyFile ex_store ''t'')
       = Some (File (Document odd_history_doc))
   \<and> \<not> is_HistoryFile odd_history_doc
   \<and> fst (FileStore_load ex_store (fs_with odd_history_files) [] ''t'')
       = Inr (Some \<lparr>task = Ref 1, history = Ref 4\<rparr>)
   \<and> JSON_stringify (snd (snd (FileStore_load ex_store (fs_with odd_history_files) [] ''t'')))
        (Ref 4) = Some (JArr [JObj [(''role'', JNum 1), (''parts'', JNum 2)]])"
  by (simp add: ex_defs odd_history_files_def odd_history_doc_def ex_task_doc_def
      FileStore_load_def getTaskFilePath_def getHistoryFilePath_def readJsonFile_def
      fs_readFile_def Let_def alloc_def isHistoryFileContent_def isArray_def get_prop_def
      array_elems_def JSON_stringify_def)

text \<open>
  Claim C7, amended. With a valid id and a metadata file that holds a Task,
  \<^verbatim>\<open>FileStore.load\<close> always succeeds with that task, whatever the history path holds.
  The history it returns is \<open>history_read\<close> of that path: empty when the history file is
  absent, cannot be read, does not parse, or fails the check of
  \<^verbatim>\<open>isHistoryFileContent\<close>; the \<^verbatim>\<open>messageHistory\<close> of the file when it passes that check.
\<close>

theorem C7_damaged_history_never_fails_load:
  assumes "valid_id tid"
    and "files fs (taskFile S tid) = Some (File (Document tj))" and "is_Task tj"
  shows "\<exists>r fs' h'. FileStore_load S fs h tid = (Inr (Some r), fs', h')
           \<and> JSON_stringify h' (task r) = Some tj
           \<and> JSON_stringify h' (history r)
               = Some (JArr (history_read (files fs (historyFile S tid))))"
  using FileStore_load_result [OF assms(1,2) is_Task_truthy [OF assms(3)], of h]
  by auto

text \<open>
  A history path whose read throws, and the history file of the counterexample, which
  passes the check.
\<close>

theorem C7_witness:
  "history_read (files (fs_with blocked_history_files) (historyFile ex_store ''t'')) = []
   \<and> (\<exists>r fs' h'. FileStore_load ex_store (fs_with blocked_history_files) [] ''t''
                 = (Inr (Some r), fs', h')
           \<and> JSON_stringify h' (task r) = Some ex_task_doc
           \<and> JSON_stringify h' (history r) = Some (JArr []))
   \<and> (\<exists>r fs' h'. FileStore_load ex_store (fs_with odd_history_files) [] ''t''
                 = (Inr (Some r), fs', h')
           \<and> JSON_stringify h' (task r) = Some ex_task_doc
           \<and> JSON_stringify h' (history r)
               = Some (JArr [JObj [(''role'', JNum 1), (''parts'', JNum 2)]]))"
  using C7_damaged_history_never_fails_load
    [of "''t''" "fs_with blocked_history_files" ex_store ex_task_doc "[]"]
    C7_damaged_history_never_fails_load
    [of "''t''" "fs_with odd_history_files" ex_store ex_task_doc "[]"]
  by (simp add: ex_defs blocked_history_files_def odd_history_files_def odd_history_doc_def
      ex_task_doc_def)






text \<open>
  Claim C10. An id that contains \<^verbatim>\<open>..\<close> anywhere is rejected by both \<^verbatim>\<open>load\<close> and
  \<^verbatim>\<open>save\<close> with the invalid-parameters error and an untouched file system; and the ids
  rejected with that error are exactly those that \<^verbatim>\<open>path.basename\<close> changes or that
  contain \<^verbatim>\<open>..\<close>.
\<close>

theorem C10_rejection_predicate:
  shows "((\<exists>ps ss. tid = ps @ ''..'' @ ss) \<longrightarrow>
            FileStore_load S fs h tid
              = (Inl (InvalidParams (''Invalid Task ID format: '' @ tid)), fs, h)
            \<and> (task_id h (task v) = Some tid \<longrightarrow>
                 FileStore_save S fs h v
                   = (Inl (InvalidParams (''Invalid Task ID format: '' @ tid)), fs, h)))
       \<and> ((\<exists>m. fst (FileStore_load S fs h tid) = Inl (InvalidParams m))
            = (basename tid \<noteq> tid \<or> (\<exists>ps ss. tid = ps @ ''..'' @ ss)))
       \<and> (task_id h (task v) = Some tid \<longrightarrow>
            (\<exists>m. fst (FileStore_save S fs h v) = Inl (InvalidParams m))
              = (basename tid \<noteq> tid \<or> (\<exists>ps ss. tid = ps @ ''..'' @ ss)))"
proof -
  have inv: "(\<not> valid_id tid) = (basename tid \<noteq> tid \<or> (\<exists>ps ss. tid = ps @ ''..'' @ ss))"
    by (simp add: valid_id_def str_includes_iff)
  show ?thesis
  proof (cases "valid_id tid")
    case True
    with inv FileStore_load_valid_error [OF True] FileStore_save_valid_error [OF _ True]
    show ?thesis by auto
  next
    case False
    with inv show ?thesis by (simp add: FileStore_load_invalid FileStore_save_invalid)
  qed
qed

text \<open>
  The id \<^verbatim>\<open>a..b\<close>: no separator, unchanged by \<^verbatim>\<open>path.basename\<close>, and rejected. The
  id \<^verbatim>\<open>t\<close> is not rejected.
\<close>

theorem C10_witness:
  "basename ''a..b'' = ''a..b'' \<and> CHR ''/'' \<notin> set ''a..b''
   \<and> FileStore_load ex_store (fs_with no_files) (heap_with_id ''a..b'') ''a..b''
       = (Inl (InvalidParams ''Invalid Task ID format: a..b''), fs_with no_files,
          heap_with_id ''a..b'')
   \<and> FileStore_save ex_store (fs_with no_files) (heap_with_id ''a..b'') id_data
       = (Inl (InvalidParams ''Invalid Task ID format: a..b''), fs_with no_files,
          heap_with_id ''a..b'')
   \<and> \<not> (\<exists>m. fst (FileStore_load ex_store (fs_with no_files) (heap_with_id ''t'') ''t'')
              = Inl (InvalidParams m))
   \<and> \<not> (\<exists>m. fst (FileStore_save ex_store (fs_with no_files) (heap_with_id ''t'') id_data)
              = Inl (InvalidParams m))"
proof -
  have "''a..b'' = ''a'' @ ''..'' @ ''b''" by simp
  then have "\<exists>ps ss. ''a..b'' = ps @ ''..'' @ ss" by blast
  moreover have "task_id (heap_with_id ''a..b'') (task id_data) = Some ''a..b''"
    by (simp add: task_id_def get_prop_def heap_with_id_def id_data_def)
  moreover have "basename ''a..b'' = ''a..b''" by (simp add: basename_def)
  ultimately have rejected:
    "FileStore_load ex_store (fs_with no_files) (heap_with_id ''a..b'') ''a..b''
       = (Inl (InvalidParams ''Invalid Task ID format: a..b''), fs_with no_files,
          heap_with_id ''a..b'')
     \<and> FileStore_save ex_store (fs_with no_files) (heap_with_id ''a..b'') id_data
       = (Inl (InvalidParams ''Invalid Task ID format: a..b''), fs_with no_files,
          heap_with_id ''a..b'')"
    using C10_rejection_predicate
      [of "''a..b''" ex_store "fs_with no_files" "heap_with_id ''a..b''" id_data]
    by simp
  have "\<not> (\<exists>ps ss. ''t'' = ps @ ''..'' @ ss)"
    using str_includes_iff [of "''t''" "''..''"] by simp
  moreover have "basename ''t'' = ''t''" by (simp add: basename_def)
  moreover have "task_id (heap_with_id ''t'') (task id_data) = Some ''t''"
    by (simp add: task_id_def get_prop_def heap_with_id_def id_data_def)
  ultimately have accepted:
    "\<not> (\<exists>m. fst (FileStore_load ex_store (fs_with no_files) (heap_with_id ''t'') ''t'')
              = Inl (InvalidParams m))
     \<and> \<not> (\<exists>m. fst (FileStore_save ex_store (fs_with no_files) (heap_with_id ''t'') id_data)
              = Inl (InvalidParams m))"
    using C10_rejection_predicate
      [of "''t''" ex_store "fs_with no_files" "heap_with_id ''t''" id_data]
    by simp
  from rejected accepted \<open>basename ''a..b'' = ''a..b''\<close> show ?thesis by simp
qed

end
